theory Spec2Isabelle
  imports Main "HOL-Library.Multiset"
begin

section \<open>Text\<close>

text \<open>
  A Python \<open>str\<close> is modelled by \<open>string\<close>, one \<open>char\<close> per code point, so
  the model covers text over the code points U+0000 to U+00FF. On that range
  \<open>str.isspace\<close> holds for 9 to 13, 28 to 32, 133 and 160, and \<open>str.lower\<close> moves the
  capital letters 65 to 90 and 192 to 222 (215, the multiplication sign, apart) up by 32.
\<close>

definition isspace :: "char \<Rightarrow> bool" where
  "isspace c =
     (let n = (of_char c :: nat)
      in (9 \<le> n \<and> n \<le> 13) \<or> (28 \<le> n \<and> n \<le> 32) \<or> n = 133 \<or> n = 160)"

text \<open>\<open>s.strip()\<close>: whitespace is dropped at both ends.\<close>

definition strip :: "string \<Rightarrow> string" where
  "strip s = rev (dropWhile isspace (rev (dropWhile isspace s)))"

definition lower_char :: "char \<Rightarrow> char" where
  "lower_char c =
     (let n = (of_char c :: nat)
      in if (65 \<le> n \<and> n \<le> 90) \<or> (192 \<le> n \<and> n \<le> 222 \<and> n \<noteq> 215)
         then char_of (n + 32) else c)"

text \<open>\<open>s.lower()\<close>.\<close>

definition lower :: "string \<Rightarrow> string" where
  "lower s = map lower_char s"

text \<open>\<open>s.split(sep)[0]\<close> for a one-character separator: the text before its first occurrence.\<close>

definition split_first :: "char \<Rightarrow> string \<Rightarrow> string" where
  "split_first sep s = takeWhile (\<lambda>c. c \<noteq> sep) s"

section \<open>model.py\<close>

text \<open>
  \<open>_sanitize_string\<close> (model.py, lines 7 to 16). The argument is \<open>None\<close> for a cell
  that a short CSV row lacks. The zero-width space U+200B lies outside the modelled code
  points, so its removal changes nothing here; the no-break space is \<open>CHR 0xA0\<close>.
\<close>

definition sanitize_string :: "string option \<Rightarrow> string" where
  "sanitize_string text =
     (case text of
        None \<Rightarrow> []
      | Some t \<Rightarrow>
          if t = [] then []
          else strip (map (\<lambda>c. if c = CHR 0xA0 then CHR '' '' else c) t))"

record WordEntry =
  english :: string
  chinese :: string
  examples :: string

text \<open>
  What the loader sees of the file system. A row of \<open>csv.DictReader\<close> maps each column
  of the header to the cell's text, or to \<open>None\<close> where the row is too short. A unit
  file that exists yields some rows; the flag says whether reading it ended in an
  exception (caught and printed, lines 93 and 94) after those rows. The files that exist
  are listed under their book and unit names.
\<close>

type_synonym csv_row = "(string \<times> string option) list"

datatype unit_file = UnitFile "csv_row list" bool

datatype directory = NoDirectory | ListingFails | Listing "(string \<times> bool) list"

record DataLoader =
  data_directory :: directory
  unit_files :: "((string \<times> string) \<times> unit_file) list"

datatype message =
    No_file_found
  | Loaded nat
  | Error_loading
  | Error_saving
  | No_words_to_review
  | Starting_review nat
  | Cache_cleared
  | File_not_found string string
  | Error_reading string string
  | Error_scanning_books


text \<open>\<open>row.get(key, '')\<close> on a row of the reader.\<close>

definition row_get :: "csv_row \<Rightarrow> string \<Rightarrow> string option" where
  "row_get row k = (case map_of row k of None \<Rightarrow> Some [] | Some v \<Rightarrow> v)"

definition row_entry :: "csv_row \<Rightarrow> WordEntry" where
  "row_entry row =
     \<lparr> english = sanitize_string (row_get row ''english''),
       chinese = sanitize_string (row_get row ''chinese''),
       examples = sanitize_string (row_get row ''examples'') \<rparr>"

text \<open>
  \<open>load_word_list\<close> (lines 65 to 96): the units in the caller's order, the rows in
  file order, rows without an english text dropped; with what is printed.
\<close>

fun load_word_list :: "DataLoader \<Rightarrow> string \<Rightarrow> string list \<Rightarrow> WordEntry list \<times> message list" where
  "load_word_list l book [] = ([], [])"
| "load_word_list l book (u # us) =
     (let (entries, printed) =
            (case map_of (unit_files l) (book, u) of
               None \<Rightarrow> ([], [File_not_found book u])
             | Some (UnitFile rows failed) \<Rightarrow>
                 (filter (\<lambda>e. english e \<noteq> []) (map row_entry rows),
                  if failed then [Error_reading book u] else []));
          (rest, printed') = load_word_list l book us
      in (entries @ rest, printed @ printed'))"

section \<open>The standard library\<close>

text \<open>
  \<open>random.shuffle\<close> walks \<open>i\<close> from the last index down to 1 and swaps position
  \<open>i\<close> with a position drawn from \<open>0..i\<close>. The generator is a parameter: \<open>rand i\<close>
  is the number it hands out at index \<open>i\<close>, brought into range.
\<close>

fun shuffle_from :: "(nat \<Rightarrow> nat) \<Rightarrow> nat \<Rightarrow> 'a list \<Rightarrow> 'a list" where
  "shuffle_from rand 0 xs = xs"
| "shuffle_from rand (Suc i) xs =
     (let j = rand (Suc i) mod (Suc i + 1)
      in shuffle_from rand i (xs[Suc i := xs ! j, j := xs ! Suc i]))"

definition shuffle :: "(nat \<Rightarrow> nat) \<Rightarrow> 'a list \<Rightarrow> 'a list" where
  "shuffle rand xs = shuffle_from rand (length xs - 1) xs"

text \<open>
  What \<open>json.load\<close> returns. Numbers are integers here, and the members of an object
  are texts, as the three \<open>str\<close> fields of \<open>WordEntry\<close> are: an object with a member
  of another type is outside the model. The pairs of an object have distinct keys.
\<close>

datatype json =
    JNull
  | JBool bool
  | JNum int
  | JStr string
  | JArr "json list"
  | JObj "(string \<times> string) list"

text \<open>
  The file \<open>wrong_words.json\<close>: not there (\<open>None\<close>), there but failing to open or
  decode, holding text that is no JSON, or holding a document. \<open>json.dump\<close> followed by
  \<open>json.load\<close> gives the value back, so the file keeps the value.
\<close>

datatype stored = Unreadable | Unparsable | Document json

datatype exception = IndexError | TypeError | AttributeError

text \<open>
  \<open>xs[i]\<close>: an index from 0 up to the length reads from the front, one from
  \<open>-len(xs)\<close> up to \<open>-1\<close> reads from the end, any other raises.
\<close>

definition subscript :: "'a list \<Rightarrow> int \<Rightarrow> exception + 'a" where
  "subscript xs i =
     (if 0 \<le> i \<and> i < int (length xs) then Inr (xs ! nat i)
      else if - int (length xs) \<le> i \<and> i < 0 then Inr (xs ! nat (int (length xs) + i))
      else Inl IndexError)"

section \<open>engine.py\<close>

text \<open>
  The engine with the part of the world it acts on: the loader, the file of wrong words
  (\<open>disk\<close>), whether that file can be opened for writing (\<open>writable\<close>), and what has
  been printed (\<open>stdout\<close>). The set \<open>wrong_words\<close> is a list without duplicates;
  its order stands for the order in which Python iterates the set.
\<close>

record GameEngine =
  loader :: DataLoader
  all_words :: "WordEntry list"
  current_deck :: "WordEntry list"
  current_index :: int
  question_mode :: string
  show_first_letter :: bool
  retry_on_wrong :: bool
  wrong_words :: "WordEntry list"
  disk :: "stored option"
  writable :: bool
  stdout :: "message list"

definition print :: "message \<Rightarrow> GameEngine \<Rightarrow> GameEngine" where
  "print m e = e\<lparr>stdout := stdout e @ [m]\<rparr>"

text \<open>\<open>for row in data\<close>: a list gives its items, a dict its keys, a text its characters.\<close>

definition iterate :: "json \<Rightarrow> exception + json list" where
  "iterate data =
     (case data of
        JArr rows \<Rightarrow> Inr rows
      | JObj kvs \<Rightarrow> Inr (map (\<lambda>kv. JStr (fst kv)) kvs)
      | JStr s \<Rightarrow> Inr (map (\<lambda>c. JStr [c]) s)
      | _ \<Rightarrow> Inl TypeError)"

text \<open>\<open>row.get(key, '')\<close> on a loaded dict.\<close>

definition dict_get :: "(string \<times> string) list \<Rightarrow> string \<Rightarrow> string" where
  "dict_get kvs k = (case map_of kvs k of None \<Rightarrow> [] | Some v \<Rightarrow> v)"

text \<open>Lines 57 to 61: only a dict has \<open>get\<close>.\<close>

definition entry_of_row :: "json \<Rightarrow> exception + WordEntry" where
  "entry_of_row row =
     (case row of
        JObj kvs \<Rightarrow>
          Inr \<lparr> english = dict_get kvs ''english'',
                chinese = dict_get kvs ''chinese'',
                examples = dict_get kvs ''examples'' \<rparr>
      | _ \<Rightarrow> Inl AttributeError)"

fun entries_of_rows :: "json list \<Rightarrow> exception + WordEntry list" where
  "entries_of_rows [] = Inr []"
| "entries_of_rows (row # rows) =
     (case entry_of_row row of
        Inl err \<Rightarrow> Inl err
      | Inr w \<Rightarrow>
          (case entries_of_rows rows of
             Inl err \<Rightarrow> Inl err
           | Inr ws \<Rightarrow> Inr (w # ws)))"

text \<open>The set comprehension of lines 56 to 62.\<close>

definition decode :: "json \<Rightarrow> exception + WordEntry list" where
  "decode data =
     (case iterate data of
        Inl err \<Rightarrow> Inl err
      | Inr rows \<Rightarrow>
          (case entries_of_rows rows of
             Inl err \<Rightarrow> Inl err
           | Inr ws \<Rightarrow> Inr (remdups ws)))"

text \<open>\<open>_load_wrong_words_from_disk\<close> (lines 42 to 65).\<close>

definition load_wrong_words_from_disk :: "GameEngine \<Rightarrow> GameEngine" where
  "load_wrong_words_from_disk e =
     (case disk e of
        None \<Rightarrow> print No_file_found e
      | Some Unreadable \<Rightarrow> print Error_loading e
      | Some Unparsable \<Rightarrow> print Error_loading e
      | Some (Document data) \<Rightarrow>
          (case decode data of
             Inl err \<Rightarrow> print Error_loading e
           | Inr ws \<Rightarrow> print (Loaded (length ws)) (e\<lparr>wrong_words := ws\<rparr>)))"

text \<open>\<open>dataclasses.asdict\<close> on a \<open>WordEntry\<close>.\<close>

definition asdict :: "WordEntry \<Rightarrow> json" where
  "asdict w =
     JObj [(''english'', english w), (''chinese'', chinese w), (''examples'', examples w)]"

text \<open>
  \<open>_save_wrong_words_to_disk\<close> (lines 67 to 78): the whole file is replaced; when it
  cannot be opened the exception is printed and the file stays as it was.
\<close>

definition save_wrong_words_to_disk :: "GameEngine \<Rightarrow> GameEngine" where
  "save_wrong_words_to_disk e =
     (if writable e
      then e\<lparr>disk := Some (Document (JArr (map asdict (wrong_words e))))\<rparr>
      else print Error_saving e)"

text \<open>\<open>__init__\<close> (lines 18 to 40), in the world given by the last three arguments.\<close>

definition init :: "DataLoader \<Rightarrow> stored option \<Rightarrow> bool \<Rightarrow> GameEngine" where
  "init l d w =
     load_wrong_words_from_disk
       \<lparr> loader = l, all_words = [], current_deck = [], current_index = 0,
         question_mode = ''word'', show_first_letter = False, retry_on_wrong = False,
         wrong_words = [], disk = d, writable = w, stdout = [] \<rparr>"

text \<open>The content filter of \<open>start_game\<close> (lines 103 to 108).\<close>

definition filter_deck :: "string \<Rightarrow> WordEntry list \<Rightarrow> WordEntry list" where
  "filter_deck filter_mode ws =
     (if filter_mode = ''words_only'' then filter (\<lambda>w. CHR '' '' \<notin> set (english w)) ws
      else if filter_mode = ''phrases_only'' then filter (\<lambda>w. CHR '' '' \<in> set (english w)) ws
      else ws)"

text \<open>\<open>start_game\<close> (lines 80 to 120); \<open>rand\<close> is the generator's answer to this call.\<close>

definition start_game ::
  "string \<Rightarrow> string list \<Rightarrow> string \<Rightarrow> string \<Rightarrow> string \<Rightarrow> bool \<Rightarrow> bool \<Rightarrow> (nat \<Rightarrow> nat)
     \<Rightarrow> GameEngine \<Rightarrow> GameEngine" where
  "start_game book units filter_mode order_mode qmode first_letter retry rand e =
     (let (loaded, printed) = load_word_list (loader e) book units;
          temp_deck = filter_deck filter_mode loaded;
          deck = (if order_mode = ''random'' then shuffle rand temp_deck else temp_deck)
      in e\<lparr> all_words := loaded,
            current_deck := deck,
            question_mode := qmode,
            show_first_letter := first_letter,
            retry_on_wrong := retry,
            current_index := 0,
            stdout := stdout e @ printed \<rparr>)"

text \<open>\<open>start_review_mode\<close> (lines 122 to 144).\<close>

definition start_review_mode :: "(nat \<Rightarrow> nat) \<Rightarrow> GameEngine \<Rightarrow> bool \<times> GameEngine" where
  "start_review_mode rand e =
     (if wrong_words e = [] then (False, print No_words_to_review e)
      else
        let e1 = print (Starting_review (length (wrong_words e))) e;
            e2 = e1\<lparr>current_deck := wrong_words e1\<rparr>;
            e3 = save_wrong_words_to_disk (e2\<lparr>wrong_words := []\<rparr>);
            e4 = e3\<lparr>current_deck := shuffle rand (current_deck e3)\<rparr>
        in (True, e4\<lparr>current_index := 0\<rparr>))"

text \<open>\<open>get_next_question\<close> (lines 146 to 155).\<close>

definition get_next_question :: "GameEngine \<Rightarrow> exception + (WordEntry option \<times> GameEngine)" where
  "get_next_question e =
     (if current_index e \<ge> int (length (current_deck e)) then Inr (None, e)
      else case subscript (current_deck e) (current_index e) of
             Inl err \<Rightarrow> Inl err
           | Inr w \<Rightarrow> Inr (Some w, e))"

text \<open>\<open>check_answer\<close> (lines 157 to 179).\<close>

definition check_answer :: "string \<Rightarrow> GameEngine \<Rightarrow> exception + (bool \<times> GameEngine)" where
  "check_answer user_input e =
     (if current_index e \<ge> int (length (current_deck e)) then Inr (False, e)
      else case subscript (current_deck e) (current_index e) of
             Inl err \<Rightarrow> Inl err
           | Inr current_word \<Rightarrow>
               let correct_answer = strip (split_first CHR '','' (english current_word));
                   is_correct = (lower (strip user_input) = lower correct_answer);
                   e1 = (if \<not> is_correct
                         then save_wrong_words_to_disk
                                (e\<lparr>wrong_words := List.insert current_word (wrong_words e)\<rparr>)
                         else e)
               in Inr (is_correct, e1\<lparr>current_index := current_index e1 + 1\<rparr>))"

text \<open>\<open>skip_current_word\<close> (lines 181 to 198).\<close>

definition skip_current_word :: "GameEngine \<Rightarrow> exception + (WordEntry option \<times> GameEngine)" where
  "skip_current_word e =
     (if current_index e \<ge> int (length (current_deck e)) then Inr (None, e)
      else case subscript (current_deck e) (current_index e) of
             Inl err \<Rightarrow> Inl err
           | Inr current_word \<Rightarrow>
               let e1 = save_wrong_words_to_disk
                          (e\<lparr>wrong_words := List.insert current_word (wrong_words e)\<rparr>)
               in Inr (Some current_word, e1\<lparr>current_index := current_index e1 + 1\<rparr>))"

text \<open>\<open>skip_without_penalty\<close> (lines 201 to 218).\<close>

definition skip_without_penalty :: "GameEngine \<Rightarrow> exception + (WordEntry option \<times> GameEngine)" where
  "skip_without_penalty e =
     (if current_index e \<ge> int (length (current_deck e)) then Inr (None, e)
      else case subscript (current_deck e) (current_index e) of
             Inl err \<Rightarrow> Inl err
           | Inr current_word \<Rightarrow>
               let e1 = (if current_word \<in> set (wrong_words e)
                         then save_wrong_words_to_disk
                                (e\<lparr>wrong_words := removeAll current_word (wrong_words e)\<rparr>)
                         else e)
               in Inr (Some current_word, e1\<lparr>current_index := current_index e1 + 1\<rparr>))"

text \<open>\<open>clear_wrong_words_cache\<close> (lines 220 to 224).\<close>

definition clear_wrong_words_cache :: "GameEngine \<Rightarrow> GameEngine" where
  "clear_wrong_words_cache e =
     print Cache_cleared (save_wrong_words_to_disk (e\<lparr>wrong_words := []\<rparr>))"

text \<open>\<open>get_progress\<close> and \<open>get_wrong_word_count\<close> (lines 226 to 236).\<close>

definition get_progress :: "GameEngine \<Rightarrow> int \<times> nat" where
  "get_progress e = (current_index e, length (current_deck e))"

definition get_wrong_word_count :: "GameEngine \<Rightarrow> nat" where
  "get_wrong_word_count e = length (wrong_words e)"

section \<open>Notions the properties speak of\<close>

text \<open>The set that the engine's own load operation reads from the file as it is now.\<close>

definition on_disk :: "GameEngine \<Rightarrow> WordEntry list" where
  "on_disk e = wrong_words (init (loader e) (disk e) (writable e))"

text \<open>The cursor is an index into the deck, or sits at its end.\<close>

definition in_bounds :: "GameEngine \<Rightarrow> bool" where
  "in_bounds e = (0 \<le> current_index e \<and> current_index e \<le> int (length (current_deck e)))"

text \<open>The current entry of a state whose cursor is inside the deck.\<close>

definition current_word :: "GameEngine \<Rightarrow> WordEntry" where
  "current_word e = current_deck e ! nat (current_index e)"

text \<open>The public methods of the engine, as calls with their arguments.\<close>

datatype operation =
    StartGame string "string list" string string string bool bool "nat \<Rightarrow> nat"
  | StartReviewMode "nat \<Rightarrow> nat"
  | GetNextQuestion
  | CheckAnswer string
  | SkipCurrentWord
  | SkipWithoutPenalty
  | ClearWrongWordsCache
  | GetProgress
  | GetWrongWordCount

text \<open>One call: the state it leaves, or the exception it raises.\<close>

fun call :: "operation \<Rightarrow> GameEngine \<Rightarrow> exception + GameEngine" where
  "call (StartGame book units fm om qm fl rt rand) e =
     Inr (start_game book units fm om qm fl rt rand e)"
| "call (StartReviewMode rand) e = Inr (snd (start_review_mode rand e))"
| "call GetNextQuestion e = map_sum id snd (get_next_question e)"
| "call (CheckAnswer user_input) e = map_sum id snd (check_answer user_input e)"
| "call SkipCurrentWord e = map_sum id snd (skip_current_word e)"
| "call SkipWithoutPenalty e = map_sum id snd (skip_without_penalty e)"
| "call ClearWrongWordsCache e = Inr (clear_wrong_words_cache e)"
| "call GetProgress e = Inr e"
| "call GetWrongWordCount e = Inr e"

text \<open>A sequence of calls, stopped by the first exception.\<close>

fun run :: "operation list \<Rightarrow> GameEngine \<Rightarrow> exception + GameEngine" where
  "run [] e = Inr e"
| "run (c # cs) e = (case call c e of Inl err \<Rightarrow> Inl err | Inr e' \<Rightarrow> run cs e')"

text \<open>The calls that neither build a deck nor clear the set.\<close>

fun is_play :: "operation \<Rightarrow> bool" where
  "is_play GetNextQuestion = True"
| "is_play (CheckAnswer user_input) = True"
| "is_play SkipCurrentWord = True"
| "is_play SkipWithoutPenalty = True"
| "is_play GetProgress = True"
| "is_play GetWrongWordCount = True"
| "is_play c = False"





section \<open>Sample data\<close>

text \<open>Entries, a loader and engine states on which the properties below are run.\<close>

definition entry_run :: WordEntry where
  "entry_run = \<lparr> english = ''run, runs'', chinese = ''pao'', examples = ''I [[run]] home.'' \<rparr>"

definition entry_take_off :: WordEntry where
  "entry_take_off = \<lparr> english = ''take off'', chinese = ''qifei'', examples = [] \<rparr>"

definition entry_apple :: WordEntry where
  "entry_apple = \<lparr> english = ''apple'', chinese = ''pingguo'', examples = [] \<rparr>"

definition sample_loader :: DataLoader where
  "sample_loader =
     \<lparr> data_directory = Listing [(''book1'', True), (''notes.txt'', False)],
       unit_files =
         [((''book1'', ''unit1.csv''),
           UnitFile
             [[(''english'', Some ''run, runs''), (''chinese'', Some ''pao''),
               (''examples'', Some ''I [[run]] home.'')],
              [(''english'', Some '' take off ''), (''chinese'', Some ''qifei''),
               (''examples'', None)],
              [(''english'', Some ''  ''), (''chinese'', Some ''kong'')],
              [(''english'', Some ''apple''), (''chinese'', Some ''pingguo'')]]
             False)] \<rparr>"

definition sample_engine :: "WordEntry list \<Rightarrow> int \<Rightarrow> WordEntry list \<Rightarrow> bool \<Rightarrow> GameEngine" where
  "sample_engine deck i wrong w =
     \<lparr> loader = sample_loader, all_words = deck, current_deck = deck, current_index = i,
       question_mode = ''word'', show_first_letter = False, retry_on_wrong = False,
       wrong_words = wrong, disk = Some (Document (JArr (map asdict wrong))), writable = w,
       stdout = [] \<rparr>"

section \<open>Auxiliary facts\<close>

lemma length_shuffle_from: "length (shuffle_from rand i xs) = length xs"
  by (induction i arbitrary: xs) (simp_all add: Let_def)

lemma mset_shuffle_from: "i < length xs \<Longrightarrow> mset (shuffle_from rand i xs) = mset xs"
proof (induction i arbitrary: xs)
  case 0
  then show ?case by simp
next
  case (Suc i)
  let ?j = "rand (Suc i) mod (Suc i + 1)"
  have "?j < Suc i + 1" by (rule mod_less_divisor) simp
  then have j: "?j < length xs" using Suc.prems by linarith
  have "mset (xs[Suc i := xs ! ?j, ?j := xs ! Suc i]) = mset xs"
    using Suc.prems j by (simp add: mset_swap)
  moreover have "i < length (xs[Suc i := xs ! ?j, ?j := xs ! Suc i])"
    using Suc.prems by simp
  ultimately show ?case using Suc.IH by (simp add: Let_def)
qed

lemma mset_shuffle: "mset (shuffle rand xs) = mset xs"
  by (cases xs) (simp_all add: shuffle_def mset_shuffle_from)

lemma length_shuffle: "length (shuffle rand xs) = length xs"
  by (simp add: shuffle_def length_shuffle_from)

lemma entry_of_row_asdict: "entry_of_row (asdict w) = Inr w"
  by (simp add: entry_of_row_def asdict_def dict_get_def)

lemma entries_of_rows_asdict: "entries_of_rows (map asdict ws) = Inr ws"
  by (induction ws) (simp_all add: entry_of_row_asdict)

lemma decode_asdict: "decode (JArr (map asdict ws)) = Inr (remdups ws)"
  by (simp add: decode_def iterate_def entries_of_rows_asdict)

lemma print_fields [simp]:
  "loader (print m e) = loader e" "all_words (print m e) = all_words e"
  "current_deck (print m e) = current_deck e" "current_index (print m e) = current_index e"
  "question_mode (print m e) = question_mode e"
  "show_first_letter (print m e) = show_first_letter e"
  "retry_on_wrong (print m e) = retry_on_wrong e" "wrong_words (print m e) = wrong_words e"
  "disk (print m e) = disk e" "writable (print m e) = writable e"
  "stdout (print m e) = stdout e @ [m]"
  by (simp_all add: print_def)

lemma save_fields [simp]:
  "loader (save_wrong_words_to_disk e) = loader e"
  "all_words (save_wrong_words_to_disk e) = all_words e"
  "current_deck (save_wrong_words_to_disk e) = current_deck e"
  "current_index (save_wrong_words_to_disk e) = current_index e"
  "question_mode (save_wrong_words_to_disk e) = question_mode e"
  "show_first_letter (save_wrong_words_to_disk e) = show_first_letter e"
  "retry_on_wrong (save_wrong_words_to_disk e) = retry_on_wrong e"
  "wrong_words (save_wrong_words_to_disk e) = wrong_words e"
  "writable (save_wrong_words_to_disk e) = writable e"
  by (simp_all add: save_wrong_words_to_disk_def)

lemma disk_save:
  "disk (save_wrong_words_to_disk e) =
     (if writable e then Some (Document (JArr (map asdict (wrong_words e)))) else disk e)"
  by (simp add: save_wrong_words_to_disk_def)

lemma on_disk_eq:
  "on_disk e =
     (case disk e of
        Some (Document data) \<Rightarrow> (case decode data of Inl err \<Rightarrow> [] | Inr ws \<Rightarrow> ws)
      | _ \<Rightarrow> [])"
  by (simp add: on_disk_def init_def load_wrong_words_from_disk_def
           split: option.splits stored.splits sum.splits)

lemma on_disk_cong: "disk e' = disk e \<Longrightarrow> on_disk e' = on_disk e"
  by (simp add: on_disk_eq)

lemma on_disk_save: "writable e \<Longrightarrow> on_disk (save_wrong_words_to_disk e) = remdups (wrong_words e)"
  by (simp add: on_disk_eq disk_save decode_asdict)

section \<open>Starting a review round\<close>

text \<open>
  C1. \<open>start_review_mode\<close> on an empty set of wrong words returns \<open>False\<close> and
  leaves the deck, the cursor, the set and the file as they were (only a line is printed).
  On a non-empty set it returns \<open>True\<close>; the new deck holds exactly the entries of the
  set before the call, each once; the set is empty and the cursor is 0 when the call
  returns; and where the file accepts the write, it holds the empty list, which loads as the
  empty set.
\<close>

theorem start_review_mode_contract:
  "(wrong_words e = [] \<longrightarrow>
      start_review_mode rand e = (False, e\<lparr>stdout := stdout e @ [No_words_to_review]\<rparr>))
   \<and> (wrong_words e \<noteq> [] \<longrightarrow>
        (\<exists>e'. start_review_mode rand e = (True, e')
          \<and> mset (current_deck e') = mset (wrong_words e)
          \<and> (distinct (wrong_words e) \<longrightarrow>
               mset (current_deck e') = mset_set (set (wrong_words e)))
          \<and> wrong_words e' = []
          \<and> current_index e' = 0
          \<and> (writable e \<longrightarrow> disk e' = Some (Document (JArr [])) \<and> on_disk e' = [])))"
proof (intro conjI impI)
  assume "wrong_words e = []"
  then show "start_review_mode rand e = (False, e\<lparr>stdout := stdout e @ [No_words_to_review]\<rparr>)"
    by (simp add: start_review_mode_def print_def)
next
  assume ne: "wrong_words e \<noteq> []"
  define e' where "e' = snd (start_review_mode rand e)"
  have res: "start_review_mode rand e = (True, e')"
    using ne by (simp add: e'_def start_review_mode_def Let_def)
  have deck: "current_deck e' = shuffle rand (wrong_words e)"
    using ne by (simp add: e'_def start_review_mode_def Let_def)
  have ms: "mset (current_deck e') = mset (wrong_words e)"
    by (simp add: deck mset_shuffle)
  have ww: "wrong_words e' = []"
    using ne by (simp add: e'_def start_review_mode_def Let_def)
  have ci: "current_index e' = 0"
    using ne by (simp add: e'_def start_review_mode_def Let_def)
  have dk: "writable e \<Longrightarrow> disk e' = Some (Document (JArr []))"
    using ne by (simp add: e'_def start_review_mode_def Let_def disk_save)
  have od: "writable e \<Longrightarrow> on_disk e' = []"
    using dk by (simp add: on_disk_eq decode_def iterate_def)
  show "\<exists>e'. start_review_mode rand e = (True, e')
          \<and> mset (current_deck e') = mset (wrong_words e)
          \<and> (distinct (wrong_words e) \<longrightarrow>
               mset (current_deck e') = mset_set (set (wrong_words e)))
          \<and> wrong_words e' = []
          \<and> current_index e' = 0
          \<and> (writable e \<longrightarrow> disk e' = Some (Document (JArr [])) \<and> on_disk e' = [])"
    using res ms ww ci dk od by (auto simp: mset_set_set)
qed

theorem start_review_mode_contract_witness:
  "wrong_words (sample_engine [entry_apple] 1 [] True) = []
   \<and> start_review_mode (\<lambda>i. 0) (sample_engine [entry_apple] 1 [] True)
       = (False, (sample_engine [entry_apple] 1 [] True)\<lparr>stdout := [No_words_to_review]\<rparr>)
   \<and> wrong_words (sample_engine [entry_apple] 1 [entry_run, entry_take_off] True) \<noteq> []
   \<and> distinct (wrong_words (sample_engine [entry_apple] 1 [entry_run, entry_take_off] True))
   \<and> writable (sample_engine [entry_apple] 1 [entry_run, entry_take_off] True)
   \<and> (\<exists>e'. start_review_mode (\<lambda>i. 0)
               (sample_engine [entry_apple] 1 [entry_run, entry_take_off] True) = (True, e')
          \<and> mset (current_deck e') = mset [entry_run, entry_take_off]
          \<and> mset (current_deck e') = mset_set {entry_run, entry_take_off}
          \<and> wrong_words e' = []
          \<and> current_index e' = 0
          \<and> disk e' = Some (Document (JArr []))
          \<and> on_disk e' = [])"
  using start_review_mode_contract
          [of "sample_engine [entry_apple] 1 [] True" "\<lambda>i. 0"]
        start_review_mode_contract
          [of "sample_engine [entry_apple] 1 [entry_run, entry_take_off] True" "\<lambda>i. 0"]
  by (simp add: sample_engine_def entry_run_def entry_take_off_def)

lemma subscript_inside:
  "0 \<le> i \<Longrightarrow> i < int (length xs) \<Longrightarrow> subscript xs i = Inr (xs ! nat i)"
  by (simp add: subscript_def)

lemma set_on_disk_save:
  "writable e \<Longrightarrow> set (on_disk (save_wrong_words_to_disk e)) = set (wrong_words e)"
  by (simp add: on_disk_save)

section \<open>Checking an answer\<close>

text \<open>
  C2. \<open>check_answer\<close> with the cursor at or past the end of the deck returns
  \<open>False\<close> and changes nothing. With the cursor inside the deck, the result says
  whether the input, stripped and lower-cased, equals the english text of the current entry
  cut at its first comma, stripped and lower-cased; the cursor moves on by exactly one; a
  right answer leaves the set of wrong words and the file alone; a wrong answer adds the
  current entry to the set, and where the file accepts the write it then loads as that set.
\<close>

theorem check_answer_contract:
  "(current_index e \<ge> int (length (current_deck e)) \<longrightarrow>
      check_answer user_input e = Inr (False, e))
   \<and> (0 \<le> current_index e \<and> current_index e < int (length (current_deck e)) \<longrightarrow>
        (\<exists>e'. check_answer user_input e =
                 Inr (lower (strip user_input) =
                        lower (strip (split_first CHR '','' (english (current_word e)))), e')
          \<and> current_index e' = current_index e + 1
          \<and> current_deck e' = current_deck e
          \<and> (lower (strip user_input) =
                lower (strip (split_first CHR '','' (english (current_word e)))) \<longrightarrow>
                wrong_words e' = wrong_words e \<and> disk e' = disk e)
          \<and> (lower (strip user_input) \<noteq>
                lower (strip (split_first CHR '','' (english (current_word e)))) \<longrightarrow>
                set (wrong_words e') = insert (current_word e) (set (wrong_words e))
                \<and> (writable e \<longrightarrow> set (on_disk e') = set (wrong_words e')))))"
proof (intro conjI impI)
  assume "current_index e \<ge> int (length (current_deck e))"
  then show "check_answer user_input e = Inr (False, e)"
    by (simp add: check_answer_def)
next
  assume inside: "0 \<le> current_index e \<and> current_index e < int (length (current_deck e))"
  let ?ok = "lower (strip user_input) =
               lower (strip (split_first CHR '','' (english (current_word e))))"
  let ?miss = "save_wrong_words_to_disk
                 (e\<lparr>wrong_words := List.insert (current_word e) (wrong_words e)\<rparr>)"
  define e' where
    "e' = (if ?ok then e else ?miss)\<lparr>current_index := current_index e + 1\<rparr>"
  have sub: "subscript (current_deck e) (current_index e) = Inr (current_word e)"
    using inside by (simp add: subscript_inside current_word_def)
  have res: "check_answer user_input e = Inr (?ok, e')"
    using inside by (simp add: check_answer_def sub e'_def Let_def)
  have idx: "current_index e' = current_index e + 1"
    by (simp add: e'_def)
  have deck: "current_deck e' = current_deck e"
    by (simp add: e'_def)
  have hit: "?ok \<Longrightarrow> wrong_words e' = wrong_words e \<and> disk e' = disk e"
    by (simp add: e'_def)
  have miss: "\<not> ?ok \<Longrightarrow> set (wrong_words e') = insert (current_word e) (set (wrong_words e))"
    by (simp add: e'_def)
  have "\<not> ?ok \<Longrightarrow> writable e \<Longrightarrow> on_disk e' = on_disk ?miss"
    by (rule on_disk_cong) (simp add: e'_def)
  then have sync: "\<not> ?ok \<Longrightarrow> writable e \<Longrightarrow> set (on_disk e') = set (wrong_words e')"
    by (simp add: on_disk_save e'_def)
  show "\<exists>e'. check_answer user_input e = Inr (?ok, e')
          \<and> current_index e' = current_index e + 1
          \<and> current_deck e' = current_deck e
          \<and> (?ok \<longrightarrow> wrong_words e' = wrong_words e \<and> disk e' = disk e)
          \<and> (\<not> ?ok \<longrightarrow>
                set (wrong_words e') = insert (current_word e) (set (wrong_words e))
                \<and> (writable e \<longrightarrow> set (on_disk e') = set (wrong_words e')))"
    using res idx deck hit miss sync by blast
qed

theorem check_answer_contract_witness:
  "check_answer ''Run'' (sample_engine [entry_run] 1 [] True)
     = Inr (False, sample_engine [entry_run] 1 [] True)
   \<and> (\<exists>e'. check_answer '' Run '' (sample_engine [entry_run, entry_apple] 0 [] True)
               = Inr (True, e')
          \<and> current_index e' = 1 \<and> wrong_words e' = [])
   \<and> (\<exists>e'. check_answer ''running'' (sample_engine [entry_run, entry_apple] 0 [] True)
               = Inr (False, e')
          \<and> current_index e' = 1
          \<and> set (wrong_words e') = {entry_run}
          \<and> set (on_disk e') = {entry_run})"
proof -
  have hit: "lower (strip '' Run '') = lower (strip (split_first CHR '','' ''run, runs''))"
    by code_simp
  have miss: "lower (strip ''running'') \<noteq> lower (strip (split_first CHR '','' ''run, runs''))"
    by code_simp
  show ?thesis
    using check_answer_contract [of "sample_engine [entry_run] 1 [] True" "''Run''"]
          check_answer_contract [of "sample_engine [entry_run, entry_apple] 0 [] True" "'' Run ''"]
          check_answer_contract [of "sample_engine [entry_run, entry_apple] 0 [] True" "''running''"]
          hit miss
    by (auto simp add: sample_engine_def current_word_def entry_run_def)
qed

section \<open>Skipping without penalty\<close>

lemma check_answer_keeps:
  "check_answer user_input e = Inr (r, e') \<Longrightarrow> set (wrong_words e) \<subseteq> set (wrong_words e')"
  by (auto simp: check_answer_def Let_def split: if_splits sum.splits)

lemma skip_current_word_keeps:
  "skip_current_word e = Inr (r, e') \<Longrightarrow> set (wrong_words e) \<subseteq> set (wrong_words e')"
  by (auto simp: skip_current_word_def Let_def split: if_splits sum.splits)

lemma get_next_question_same:
  "get_next_question e = Inr (r, e') \<Longrightarrow> e' = e"
  by (auto simp: get_next_question_def split: if_splits sum.splits)

text \<open>
  C5. \<open>skip_without_penalty\<close> with the cursor at or past the end of the deck returns
  \<open>None\<close> and changes nothing. With the cursor inside the deck it returns the current
  entry and moves the cursor on by exactly one; an entry that is in the set of wrong words
  is taken out of it, and where the file accepts the write it then loads as the new set; an
  entry that is not in the set leaves set and file alone. And \<open>check_answer\<close>,
  \<open>skip_current_word\<close> and \<open>get_next_question\<close> never take an entry out of the set.
\<close>

theorem skip_without_penalty_contract:
  "(current_index e \<ge> int (length (current_deck e)) \<longrightarrow>
      skip_without_penalty e = Inr (None, e))
   \<and> (0 \<le> current_index e \<and> current_index e < int (length (current_deck e)) \<longrightarrow>
        (\<exists>e'. skip_without_penalty e = Inr (Some (current_word e), e')
          \<and> current_index e' = current_index e + 1
          \<and> current_deck e' = current_deck e
          \<and> (current_word e \<in> set (wrong_words e) \<longrightarrow>
                set (wrong_words e') = set (wrong_words e) - {current_word e}
                \<and> (writable e \<longrightarrow> set (on_disk e') = set (wrong_words e')))
          \<and> (current_word e \<notin> set (wrong_words e) \<longrightarrow>
                wrong_words e' = wrong_words e \<and> disk e' = disk e)))
   \<and> (\<forall>user_input r e'. check_answer user_input e = Inr (r, e') \<longrightarrow>
          set (wrong_words e) \<subseteq> set (wrong_words e'))
   \<and> (\<forall>r e'. skip_current_word e = Inr (r, e') \<longrightarrow>
          set (wrong_words e) \<subseteq> set (wrong_words e'))
   \<and> (\<forall>r e'. get_next_question e = Inr (r, e') \<longrightarrow>
          set (wrong_words e) \<subseteq> set (wrong_words e'))"
proof (intro conjI impI allI)
  assume "current_index e \<ge> int (length (current_deck e))"
  then show "skip_without_penalty e = Inr (None, e)"
    by (simp add: skip_without_penalty_def)
next
  assume inside: "0 \<le> current_index e \<and> current_index e < int (length (current_deck e))"
  let ?w = "current_word e"
  let ?known = "?w \<in> set (wrong_words e)"
  let ?dropped = "save_wrong_words_to_disk (e\<lparr>wrong_words := removeAll ?w (wrong_words e)\<rparr>)"
  define e' where
    "e' = (if ?known then ?dropped else e)\<lparr>current_index := current_index e + 1\<rparr>"
  have sub: "subscript (current_deck e) (current_index e) = Inr ?w"
    using inside by (simp add: subscript_inside current_word_def)
  have res: "skip_without_penalty e = Inr (Some ?w, e')"
    using inside by (simp add: skip_without_penalty_def sub e'_def Let_def)
  have idx: "current_index e' = current_index e + 1"
    by (simp add: e'_def)
  have deck: "current_deck e' = current_deck e"
    by (simp add: e'_def)
  have gone: "?known \<Longrightarrow> set (wrong_words e') = set (wrong_words e) - {?w}"
    by (simp add: e'_def)
  have "?known \<Longrightarrow> on_disk e' = on_disk ?dropped"
    by (rule on_disk_cong) (simp add: e'_def)
  then have sync: "?known \<Longrightarrow> writable e \<Longrightarrow> set (on_disk e') = set (wrong_words e')"
    by (simp add: on_disk_save e'_def)
  have same: "\<not> ?known \<Longrightarrow> wrong_words e' = wrong_words e \<and> disk e' = disk e"
    by (simp add: e'_def)
  show "\<exists>e'. skip_without_penalty e = Inr (Some ?w, e')
          \<and> current_index e' = current_index e + 1
          \<and> current_deck e' = current_deck e
          \<and> (?known \<longrightarrow>
                set (wrong_words e') = set (wrong_words e) - {?w}
                \<and> (writable e \<longrightarrow> set (on_disk e') = set (wrong_words e')))
          \<and> (?w \<notin> set (wrong_words e) \<longrightarrow>
                wrong_words e' = wrong_words e \<and> disk e' = disk e)"
    using res idx deck gone sync same by blast
next
  fix user_input r e'
  assume "check_answer user_input e = Inr (r, e')"
  then show "set (wrong_words e) \<subseteq> set (wrong_words e')"
    by (rule check_answer_keeps)
next
  fix r e'
  assume "skip_current_word e = Inr (r, e')"
  then show "set (wrong_words e) \<subseteq> set (wrong_words e')"
    by (rule skip_current_word_keeps)
next
  fix r e'
  assume "get_next_question e = Inr (r, e')"
  then have "e' = e"
    by (rule get_next_question_same)
  then show "set (wrong_words e) \<subseteq> set (wrong_words e')"
    by simp
qed


theorem skip_without_penalty_contract_witness:
  "skip_without_penalty (sample_engine [entry_run] 1 [entry_run] True)
     = Inr (None, sample_engine [entry_run] 1 [entry_run] True)
   \<and> (\<exists>e'. skip_without_penalty
               (sample_engine [entry_run, entry_apple] 0 [entry_apple, entry_run] True)
               = Inr (Some entry_run, e')
          \<and> current_index e' = 1
          \<and> set (wrong_words e') = {entry_apple}
          \<and> set (on_disk e') = {entry_apple})
   \<and> (\<exists>e'. skip_without_penalty
               (sample_engine [entry_run, entry_apple] 0 [entry_apple] True)
               = Inr (Some entry_run, e')
          \<and> current_index e' = 1
          \<and> wrong_words e' = [entry_apple]
          \<and> disk e' = Some (Document (JArr [asdict entry_apple])))
   \<and> (\<exists>e'. check_answer ''pear'' (sample_engine [entry_run] 0 [entry_apple] True)
               = Inr (False, e')
          \<and> {entry_apple} \<subseteq> set (wrong_words e'))
   \<and> (\<exists>e'. skip_current_word (sample_engine [entry_run] 0 [entry_apple] True)
               = Inr (Some entry_run, e')
          \<and> {entry_apple} \<subseteq> set (wrong_words e'))
   \<and> (\<exists>e'. get_next_question (sample_engine [entry_run] 0 [entry_apple] True)
               = Inr (Some entry_run, e')
          \<and> {entry_apple} \<subseteq> set (wrong_words e'))"
proof -
  have ne: "entry_run \<noteq> entry_apple"
    by (simp add: entry_run_def entry_apple_def)
  have c: "check_answer ''pear'' (sample_engine [entry_run] 0 [entry_apple] True)
             = Inr (False, snd (projr (check_answer ''pear''
                                 (sample_engine [entry_run] 0 [entry_apple] True))))"
    by code_simp
  have s: "skip_current_word (sample_engine [entry_run] 0 [entry_apple] True)
             = Inr (Some entry_run, snd (projr (skip_current_word
                                 (sample_engine [entry_run] 0 [entry_apple] True))))"
    by code_simp
  have g: "get_next_question (sample_engine [entry_run] 0 [entry_apple] True)
             = Inr (Some entry_run, snd (projr (get_next_question
                                 (sample_engine [entry_run] 0 [entry_apple] True))))"
    by code_simp
  have k: "{entry_apple} \<subseteq> set (wrong_words (sample_engine [entry_run] 0 [entry_apple] True))"
    by (simp add: sample_engine_def)
  note t1 = skip_without_penalty_contract [of "sample_engine [entry_run] 1 [entry_run] True"]
  note t2 = skip_without_penalty_contract
              [of "sample_engine [entry_run, entry_apple] 0 [entry_apple, entry_run] True"]
  note t3 = skip_without_penalty_contract
              [of "sample_engine [entry_run, entry_apple] 0 [entry_apple] True"]
  note t4 = skip_without_penalty_contract [of "sample_engine [entry_run] 0 [entry_apple] True"]
  have p1: "skip_without_penalty (sample_engine [entry_run] 1 [entry_run] True)
              = Inr (None, sample_engine [entry_run] 1 [entry_run] True)"
    using t1 by (simp add: sample_engine_def)
  have p2: "\<exists>e'. skip_without_penalty
               (sample_engine [entry_run, entry_apple] 0 [entry_apple, entry_run] True)
               = Inr (Some entry_run, e')
          \<and> current_index e' = 1
          \<and> set (wrong_words e') = {entry_apple}
          \<and> set (on_disk e') = {entry_apple}"
    using t2 ne by (auto simp add: sample_engine_def current_word_def)
  have p3: "\<exists>e'. skip_without_penalty
               (sample_engine [entry_run, entry_apple] 0 [entry_apple] True)
               = Inr (Some entry_run, e')
          \<and> current_index e' = 1
          \<and> wrong_words e' = [entry_apple]
          \<and> disk e' = Some (Document (JArr [asdict entry_apple]))"
    using t3 ne by (auto simp add: sample_engine_def current_word_def)
  note keep_c = t4 [THEN conjunct2, THEN conjunct2, THEN conjunct1, rule_format, OF c]
  note keep_s = t4 [THEN conjunct2, THEN conjunct2, THEN conjunct2, THEN conjunct1,
                    rule_format, OF s]
  note keep_g = t4 [THEN conjunct2, THEN conjunct2, THEN conjunct2, THEN conjunct2,
                    rule_format, OF g]
  have p4: "\<exists>e'. check_answer ''pear'' (sample_engine [entry_run] 0 [entry_apple] True)
               = Inr (False, e')
          \<and> {entry_apple} \<subseteq> set (wrong_words e')"
    using c k keep_c by (intro exI conjI) (assumption, rule subset_trans)
  have p5: "\<exists>e'. skip_current_word (sample_engine [entry_run] 0 [entry_apple] True)
               = Inr (Some entry_run, e')
          \<and> {entry_apple} \<subseteq> set (wrong_words e')"
    using s k keep_s by (intro exI conjI) (assumption, rule subset_trans)
  have p6: "\<exists>e'. get_next_question (sample_engine [entry_run] 0 [entry_apple] True)
               = Inr (Some entry_run, e')
          \<and> {entry_apple} \<subseteq> set (wrong_words e')"
    using g k keep_g by (intro exI conjI) (assumption, rule subset_trans)
  show ?thesis using p1 p2 p3 p4 p5 p6 by (intro conjI)
qed

section \<open>Asking for the next question\<close>

lemma get_next_question_inside:
  "0 \<le> current_index e \<Longrightarrow> current_index e < int (length (current_deck e)) \<Longrightarrow>
     get_next_question e = Inr (Some (current_word e), e)"
  by (simp add: get_next_question_def subscript_inside current_word_def)

lemma get_next_question_end:
  "int (length (current_deck e)) \<le> current_index e \<Longrightarrow> get_next_question e = Inr (None, e)"
  by (simp add: get_next_question_def)

lemma get_next_question_None:
  "get_next_question e = Inr (None, e') \<Longrightarrow> int (length (current_deck e)) \<le> current_index e"
  by (auto simp: get_next_question_def split: if_splits sum.splits)

text \<open>
  C8. \<open>get_next_question\<close> never changes the state. With a cursor that is not
  negative it returns the entry at the cursor while the cursor is inside the deck, and
  \<open>None\<close> otherwise; in any state it returns \<open>None\<close> exactly when the cursor has
  reached the length of the deck, which for a cursor within bounds is the cursor being
  equal to that length. Asked again in the state it left, it gives the same answer.
\<close>

theorem get_next_question_pure:
  "(\<forall>r e'. get_next_question e = Inr (r, e') \<longrightarrow>
        e' = e \<and> get_next_question e' = Inr (r, e'))
   \<and> (0 \<le> current_index e \<and> current_index e < int (length (current_deck e)) \<longrightarrow>
        get_next_question e = Inr (Some (current_word e), e))
   \<and> (get_next_question e = Inr (None, e)
        \<longleftrightarrow> int (length (current_deck e)) \<le> current_index e)
   \<and> (in_bounds e \<longrightarrow>
        (get_next_question e = Inr (None, e)
         \<longleftrightarrow> current_index e = int (length (current_deck e))))"
proof (intro conjI impI allI)
  fix r e'
  assume a: "get_next_question e = Inr (r, e')"
  then show "e' = e" by (rule get_next_question_same)
  with a show "get_next_question e' = Inr (r, e')" by simp
next
  assume "0 \<le> current_index e \<and> current_index e < int (length (current_deck e))"
  then show "get_next_question e = Inr (Some (current_word e), e)"
    by (simp add: get_next_question_inside)
next
  show ends: "get_next_question e = Inr (None, e)
        \<longleftrightarrow> int (length (current_deck e)) \<le> current_index e"
    using get_next_question_None [of e e] get_next_question_end [of e] by blast
  assume "in_bounds e"
  then have "int (length (current_deck e)) \<le> current_index e
               \<longleftrightarrow> current_index e = int (length (current_deck e))"
    by (auto simp: in_bounds_def)
  with ends show "get_next_question e = Inr (None, e)
        \<longleftrightarrow> current_index e = int (length (current_deck e))"
    by simp
qed

theorem get_next_question_pure_witness:
  "get_next_question (sample_engine [entry_run, entry_apple] 1 [] True)
     = Inr (Some entry_apple, sample_engine [entry_run, entry_apple] 1 [] True)
   \<and> get_next_question (sample_engine [entry_run, entry_apple] 2 [] True)
     = Inr (None, sample_engine [entry_run, entry_apple] 2 [] True)
   \<and> in_bounds (sample_engine [entry_run, entry_apple] 2 [] True)"
proof -
  have b: "in_bounds (sample_engine [entry_run, entry_apple] 2 [] True)"
    by (simp add: in_bounds_def sample_engine_def)
  have "get_next_question (sample_engine [entry_run, entry_apple] 1 [] True)
          = Inr (Some entry_apple, sample_engine [entry_run, entry_apple] 1 [] True)"
    using get_next_question_pure [of "sample_engine [entry_run, entry_apple] 1 [] True"]
    by (simp add: sample_engine_def current_word_def)
  moreover have "get_next_question (sample_engine [entry_run, entry_apple] 2 [] True)
          = Inr (None, sample_engine [entry_run, entry_apple] 2 [] True)"
    using get_next_question_pure [of "sample_engine [entry_run, entry_apple] 2 [] True"] b
    by (simp add: sample_engine_def)
  ultimately show ?thesis using b by simp
qed

section \<open>Building a deck\<close>

lemma start_game_deck:
  "current_deck (start_game book units fm om qm fl rt rand e) =
     (if om = ''random''
      then shuffle rand (filter_deck fm (fst (load_word_list (loader e) book units)))
      else filter_deck fm (fst (load_word_list (loader e) book units)))"
  by (simp add: start_game_def Let_def split: prod.splits)

lemma start_game_all_words:
  "all_words (start_game book units fm om qm fl rt rand e) =
     fst (load_word_list (loader e) book units)"
  by (simp add: start_game_def Let_def split: prod.splits)

lemma start_game_index:
  "current_index (start_game book units fm om qm fl rt rand e) = 0"
  by (simp add: start_game_def Let_def split: prod.splits)

lemma mset_start_game_deck:
  "mset (current_deck (start_game book units fm om qm fl rt rand e)) =
     mset (filter_deck fm (fst (load_word_list (loader e) book units)))"
  by (simp add: start_game_deck mset_shuffle)

lemma set_start_game_deck:
  "set (current_deck (start_game book units fm om qm fl rt rand e)) =
     set (filter_deck fm (fst (load_word_list (loader e) book units)))"
  using mset_start_game_deck [of book units fm om qm fl rt rand e]
  by (metis set_mset_mset)

lemma length_start_game_deck:
  "length (current_deck (start_game book units fm om qm fl rt rand e)) =
     length (filter_deck fm (fst (load_word_list (loader e) book units)))"
  by (simp add: start_game_deck length_shuffle)

lemma filter_deck_words: "filter_deck ''words_only'' ws = filter (\<lambda>w. CHR '' '' \<notin> set (english w)) ws"
  by (simp add: filter_deck_def)

lemma filter_deck_phrases: "filter_deck ''phrases_only'' ws = filter (\<lambda>w. CHR '' '' \<in> set (english w)) ws"
  by (simp add: filter_deck_def)

lemma filter_deck_other:
  "fm \<noteq> ''words_only'' \<Longrightarrow> fm \<noteq> ''phrases_only'' \<Longrightarrow> filter_deck fm ws = ws"
  by (simp add: filter_deck_def)

lemma filter_deck_all: "filter_deck ''all'' ws = ws"
  by (simp add: filter_deck_def)

text \<open>
  C6. After \<open>start_game\<close> with the filter \<open>words_only\<close> no entry of the deck has a
  space in its english text, and the deck holds exactly the loaded entries without one;
  with \<open>phrases_only\<close> every entry has a space, and the deck holds exactly the loaded
  entries with one; with \<open>all\<close> the deck has the entries and the length of the loaded
  list, is that list itself unless the order is \<open>random\<close>, and is the union as
  multisets of the decks of the two other filters.
\<close>

theorem start_game_filter_modes:
  "(\<forall>w \<in> set (current_deck (start_game book units ''words_only'' om qm fl rt rand e)).
       CHR '' '' \<notin> set (english w))
   \<and> mset (current_deck (start_game book units ''words_only'' om qm fl rt rand e))
       = filter_mset (\<lambda>w. CHR '' '' \<notin> set (english w))
           (mset (fst (load_word_list (loader e) book units)))
   \<and> (\<forall>w \<in> set (current_deck (start_game book units ''phrases_only'' om qm fl rt rand e)).
       CHR '' '' \<in> set (english w))
   \<and> mset (current_deck (start_game book units ''phrases_only'' om qm fl rt rand e))
       = filter_mset (\<lambda>w. CHR '' '' \<in> set (english w))
           (mset (fst (load_word_list (loader e) book units)))
   \<and> mset (current_deck (start_game book units ''all'' om qm fl rt rand e))
       = mset (fst (load_word_list (loader e) book units))
   \<and> length (current_deck (start_game book units ''all'' om qm fl rt rand e))
       = length (fst (load_word_list (loader e) book units))
   \<and> (om \<noteq> ''random'' \<longrightarrow>
        current_deck (start_game book units ''all'' om qm fl rt rand e)
          = fst (load_word_list (loader e) book units))
   \<and> all_words (start_game book units ''all'' om qm fl rt rand e)
       = fst (load_word_list (loader e) book units)
   \<and> mset (current_deck (start_game book units ''all'' om qm fl rt rand e))
       = mset (current_deck (start_game book units ''words_only'' om qm fl rt rand e))
         + mset (current_deck (start_game book units ''phrases_only'' om qm fl rt rand e))"
proof (intro conjI impI ballI)
  fix w
  assume "w \<in> set (current_deck (start_game book units ''words_only'' om qm fl rt rand e))"
  then show "CHR '' '' \<notin> set (english w)"
    by (simp add: set_start_game_deck filter_deck_words)
next
  fix w
  assume "w \<in> set (current_deck (start_game book units ''phrases_only'' om qm fl rt rand e))"
  then show "CHR '' '' \<in> set (english w)"
    by (simp add: set_start_game_deck filter_deck_phrases)
next
  show "mset (current_deck (start_game book units ''words_only'' om qm fl rt rand e))
       = filter_mset (\<lambda>w. CHR '' '' \<notin> set (english w))
           (mset (fst (load_word_list (loader e) book units)))"
    by (simp add: mset_start_game_deck filter_deck_words)
next
  show "mset (current_deck (start_game book units ''phrases_only'' om qm fl rt rand e))
       = filter_mset (\<lambda>w. CHR '' '' \<in> set (english w))
           (mset (fst (load_word_list (loader e) book units)))"
    by (simp add: mset_start_game_deck filter_deck_phrases)
next
  show "mset (current_deck (start_game book units ''all'' om qm fl rt rand e))
       = mset (fst (load_word_list (loader e) book units))"
    by (simp add: mset_start_game_deck filter_deck_all)
next
  show "length (current_deck (start_game book units ''all'' om qm fl rt rand e))
       = length (fst (load_word_list (loader e) book units))"
    by (simp add: length_start_game_deck filter_deck_all)
next
  assume "om \<noteq> ''random''"
  then show "current_deck (start_game book units ''all'' om qm fl rt rand e)
          = fst (load_word_list (loader e) book units)"
    by (simp add: start_game_deck filter_deck_all)
next
  show "all_words (start_game book units ''all'' om qm fl rt rand e)
       = fst (load_word_list (loader e) book units)"
    by (rule start_game_all_words)
next
  show "mset (current_deck (start_game book units ''all'' om qm fl rt rand e))
       = mset (current_deck (start_game book units ''words_only'' om qm fl rt rand e))
         + mset (current_deck (start_game book units ''phrases_only'' om qm fl rt rand e))"
    by (simp add: mset_start_game_deck filter_deck_all filter_deck_words filter_deck_phrases
          multiset_partition [symmetric] add.commute)
qed

theorem start_game_filter_modes_witness:
  "CHR '' '' \<notin> set (english entry_apple)
   \<and> current_deck (start_game ''book1'' [''unit1.csv''] ''words_only'' ''sequential''
                     ''word'' False False (\<lambda>i. 0) (sample_engine [] 0 [] True))
       = [entry_apple]
   \<and> CHR '' '' \<in> set (english entry_run)
   \<and> CHR '' '' \<in> set (english entry_take_off)
   \<and> current_deck (start_game ''book1'' [''unit1.csv''] ''phrases_only'' ''sequential''
                     ''word'' False False (\<lambda>i. 0) (sample_engine [] 0 [] True))
       = [entry_run, entry_take_off]
   \<and> ''sequential'' \<noteq> ''random''
   \<and> current_deck (start_game ''book1'' [''unit1.csv''] ''all'' ''sequential''
                     ''word'' False False (\<lambda>i. 0) (sample_engine [] 0 [] True))
       = [entry_run, entry_take_off, entry_apple]"
proof -
  have words: "current_deck (start_game ''book1'' [''unit1.csv''] ''words_only'' ''sequential''
                     ''word'' False False (\<lambda>i. 0) (sample_engine [] 0 [] True))
       = [entry_apple]"
    by code_simp
  have phrases: "current_deck (start_game ''book1'' [''unit1.csv''] ''phrases_only''
                     ''sequential'' ''word'' False False (\<lambda>i. 0) (sample_engine [] 0 [] True))
       = [entry_run, entry_take_off]"
    by code_simp
  have loaded: "fst (load_word_list (loader (sample_engine [] 0 [] True)) ''book1''
                  [''unit1.csv'']) = [entry_run, entry_take_off, entry_apple]"
    by code_simp
  show ?thesis
    using start_game_filter_modes
            [where book = "''book1''" and units = "[''unit1.csv'']"
               and om = "''sequential''" and qm = "''word''" and fl = False and rt = False
               and rand = "\<lambda>i. 0" and e = "sample_engine [] 0 [] True"]
          words phrases loaded
    by simp
qed

text \<open>
  C7. After \<open>start_game\<close> with the order \<open>sequential\<close> the deck is the filtered
  list of loaded entries, in the loader's order; with the order \<open>random\<close> it is a
  rearrangement of that list: the same entries as often, and the same length.
\<close>

theorem start_game_order_modes:
  "current_deck (start_game book units fm ''sequential'' qm fl rt rand e)
     = filter_deck fm (fst (load_word_list (loader e) book units))
   \<and> mset (current_deck (start_game book units fm ''random'' qm fl rt rand e))
     = mset (filter_deck fm (fst (load_word_list (loader e) book units)))
   \<and> length (current_deck (start_game book units fm ''random'' qm fl rt rand e))
     = length (filter_deck fm (fst (load_word_list (loader e) book units)))
   \<and> current_deck (start_game book units fm ''random'' qm fl rt rand e)
     = shuffle rand (filter_deck fm (fst (load_word_list (loader e) book units)))"
  by (simp add: start_game_deck mset_shuffle length_shuffle)

theorem start_game_order_modes_witness:
  "current_deck (start_game ''book1'' [''unit1.csv''] ''all'' ''sequential''
                     ''word'' False False (\<lambda>i. 0) (sample_engine [] 0 [] True))
     = [entry_run, entry_take_off, entry_apple]
   \<and> current_deck (start_game ''book1'' [''unit1.csv''] ''all'' ''random''
                     ''word'' False False (\<lambda>i. 0) (sample_engine [] 0 [] True))
     = [entry_take_off, entry_apple, entry_run]
   \<and> mset (current_deck (start_game ''book1'' [''unit1.csv''] ''all'' ''random''
                     ''word'' False False (\<lambda>i. 0) (sample_engine [] 0 [] True)))
     = mset [entry_run, entry_take_off, entry_apple]"
proof -
  have filtered: "filter_deck ''all'' (fst (load_word_list (loader (sample_engine [] 0 [] True))
                    ''book1'' [''unit1.csv''])) = [entry_run, entry_take_off, entry_apple]"
    by code_simp
  have shuffled: "shuffle (\<lambda>i. 0) [entry_run, entry_take_off, entry_apple]
                    = [entry_take_off, entry_apple, entry_run]"
    by code_simp
  show ?thesis
    using start_game_order_modes
            [where book = "''book1''" and units = "[''unit1.csv'']"
               and fm = "''all''" and qm = "''word''" and fl = False and rt = False
               and rand = "\<lambda>i. 0" and e = "sample_engine [] 0 [] True"]
          filtered shuffled
    by simp
qed

text \<open>
  C10. \<open>start_game\<close> takes any text as a mode. A filter other than \<open>words_only\<close>
  and \<open>phrases_only\<close>, such as \<open>wordsOnly\<close> or \<open>phrasesOnly\<close>, gives the state
  that the filter \<open>all\<close> gives; an order other than \<open>random\<close> gives the state that
  \<open>sequential\<close> gives; with both, the deck is the loaded list, unfiltered and in the
  loader's order; and the cursor is 0 whatever the modes are.
\<close>

theorem start_game_unknown_modes:
  "(fm \<noteq> ''words_only'' \<and> fm \<noteq> ''phrases_only'' \<longrightarrow>
      start_game book units fm om qm fl rt rand e
        = start_game book units ''all'' om qm fl rt rand e)
   \<and> (om \<noteq> ''random'' \<longrightarrow>
      start_game book units fm om qm fl rt rand e
        = start_game book units fm ''sequential'' qm fl rt rand e)
   \<and> (fm \<noteq> ''words_only'' \<and> fm \<noteq> ''phrases_only'' \<and> om \<noteq> ''random'' \<longrightarrow>
      current_deck (start_game book units fm om qm fl rt rand e)
        = fst (load_word_list (loader e) book units))
   \<and> start_game book units ''wordsOnly'' om qm fl rt rand e
        = start_game book units ''all'' om qm fl rt rand e
   \<and> start_game book units ''phrasesOnly'' om qm fl rt rand e
        = start_game book units ''all'' om qm fl rt rand e
   \<and> current_index (start_game book units fm om qm fl rt rand e) = 0"
  by (simp add: start_game_def filter_deck_def Let_def split: prod.splits)

theorem start_game_unknown_modes_witness:
  "''wordsOnly'' \<noteq> ''words_only'' \<and> ''wordsOnly'' \<noteq> ''phrases_only''
   \<and> ''Random'' \<noteq> ''random''
   \<and> start_game ''book1'' [''unit1.csv''] ''wordsOnly'' ''Random'' ''word'' False False
        (\<lambda>i. 0) (sample_engine [] 0 [] True)
      = start_game ''book1'' [''unit1.csv''] ''all'' ''Random'' ''word'' False False
        (\<lambda>i. 0) (sample_engine [] 0 [] True)
   \<and> start_game ''book1'' [''unit1.csv''] ''wordsOnly'' ''Random'' ''word'' False False
        (\<lambda>i. 0) (sample_engine [] 0 [] True)
      = start_game ''book1'' [''unit1.csv''] ''wordsOnly'' ''sequential'' ''word'' False False
        (\<lambda>i. 0) (sample_engine [] 0 [] True)
   \<and> current_deck (start_game ''book1'' [''unit1.csv''] ''wordsOnly'' ''Random'' ''word''
        False False (\<lambda>i. 0) (sample_engine [] 0 [] True))
      = [entry_run, entry_take_off, entry_apple]"
proof -
  have f: "''wordsOnly'' \<noteq> ''words_only'' \<and> ''wordsOnly'' \<noteq> ''phrases_only''"
    by simp
  have r: "''Random'' \<noteq> ''random''"
    by simp
  have loaded: "fst (load_word_list (loader (sample_engine [] 0 [] True)) ''book1''
                  [''unit1.csv'']) = [entry_run, entry_take_off, entry_apple]"
    by code_simp
  note t = start_game_unknown_modes
            [where fm = "''wordsOnly''" and om = "''Random''"
               and book = "''book1''" and units = "[''unit1.csv'']"
               and qm = "''word''" and fl = False and rt = False
               and rand = "\<lambda>i. 0" and e = "sample_engine [] 0 [] True"]
  note as_all = t [THEN conjunct1, rule_format, OF f]
  note as_sequential = t [THEN conjunct2, THEN conjunct1, rule_format, OF r]
  note deck = t [THEN conjunct2, THEN conjunct2, THEN conjunct1, rule_format,
                 OF conjI [OF conjunct1 [OF f] conjI [OF conjunct2 [OF f] r]]]
  show ?thesis
    using f r as_all as_sequential deck [unfolded loaded] by (intro conjI) simp_all
qed

section \<open>Missing and corrupt resources\<close>















section \<open>The cursor stays within the deck\<close>

lemma start_review_mode_bounds:
  "in_bounds e \<Longrightarrow> in_bounds (snd (start_review_mode rand e))"
  by (simp add: start_review_mode_def in_bounds_def Let_def)

lemma start_review_mode_started:
  "start_review_mode rand e = (True, e') \<Longrightarrow> in_bounds e'"
  by (auto simp: start_review_mode_def in_bounds_def Let_def split: if_splits)

lemma start_game_bounds: "in_bounds (start_game book units fm om qm fl rt rand e)"
  by (simp add: in_bounds_def start_game_index)

lemma check_answer_bounds:
  "in_bounds e \<Longrightarrow> \<exists>r e'. check_answer user_input e = Inr (r, e') \<and> in_bounds e'
     \<and> current_deck e' = current_deck e"
  by (cases "current_index e < int (length (current_deck e))")
     (auto simp: check_answer_def in_bounds_def subscript_inside Let_def)

lemma skip_current_word_bounds:
  "in_bounds e \<Longrightarrow> \<exists>r e'. skip_current_word e = Inr (r, e') \<and> in_bounds e'
     \<and> current_deck e' = current_deck e"
  by (cases "current_index e < int (length (current_deck e))")
     (simp_all add: skip_current_word_def in_bounds_def subscript_inside Let_def)

lemma skip_without_penalty_bounds:
  "in_bounds e \<Longrightarrow> \<exists>r e'. skip_without_penalty e = Inr (r, e') \<and> in_bounds e'
     \<and> current_deck e' = current_deck e"
  by (cases "current_index e < int (length (current_deck e))")
     (simp_all add: skip_without_penalty_def in_bounds_def subscript_inside Let_def)

lemma get_next_question_bounds:
  "in_bounds e \<Longrightarrow> \<exists>r. get_next_question e = Inr (r, e)"
  by (cases "current_index e < int (length (current_deck e))")
     (simp_all add: get_next_question_def in_bounds_def subscript_inside)

lemma clear_wrong_words_cache_bounds:
  "in_bounds e \<Longrightarrow> in_bounds (clear_wrong_words_cache e)"
  by (simp add: clear_wrong_words_cache_def in_bounds_def)

lemma call_bounds: "in_bounds e \<Longrightarrow> \<exists>e'. call c e = Inr e' \<and> in_bounds e'"
proof (cases c)
  case (CheckAnswer user_input)
  assume "in_bounds e"
  then show ?thesis
    using check_answer_bounds [of e user_input] CheckAnswer by auto
next
  case SkipCurrentWord
  assume "in_bounds e"
  then show ?thesis
    using skip_current_word_bounds [of e] SkipCurrentWord by auto
next
  case SkipWithoutPenalty
  assume "in_bounds e"
  then show ?thesis
    using skip_without_penalty_bounds [of e] SkipWithoutPenalty by auto
next
  case GetNextQuestion
  assume "in_bounds e"
  then show ?thesis
    using get_next_question_bounds [of e] GetNextQuestion by auto
qed (simp_all add: start_game_bounds start_review_mode_bounds clear_wrong_words_cache_bounds)

lemma call_play_deck:
  "is_play c \<Longrightarrow> call c e = Inr e' \<Longrightarrow> current_deck e' = current_deck e"
  by (cases c)
     (auto simp: get_next_question_def check_answer_def skip_current_word_def
        skip_without_penalty_def Let_def split: if_splits sum.splits)

lemma run_bounds: "in_bounds e \<Longrightarrow> \<exists>e'. run cs e = Inr e' \<and> in_bounds e'"
proof (induction cs arbitrary: e)
  case Nil
  then show ?case by simp
next
  case (Cons c cs)
  from Cons.prems obtain e1 where "call c e = Inr e1" "in_bounds e1"
    using call_bounds by blast
  then show ?case using Cons.IH [of e1] by simp
qed

lemma run_play_deck:
  "list_all is_play cs \<Longrightarrow> run cs e = Inr e' \<Longrightarrow> current_deck e' = current_deck e"
proof (induction cs arbitrary: e)
  case Nil
  then show ?case by simp
next
  case (Cons c cs)
  from Cons.prems obtain e1 where e1: "call c e = Inr e1" "run cs e1 = Inr e'"
    by (auto split: sum.splits)
  with Cons have "current_deck e' = current_deck e1" by simp
  moreover from Cons.prems e1 have "current_deck e1 = current_deck e"
    using call_play_deck [of c e e1] by simp
  ultimately show ?case by simp
qed

text \<open>
  C4. Take the state that \<open>start_game\<close> leaves, or the state that a successful
  \<open>start_review_mode\<close> leaves, and make any sequence of calls of the engine's methods
  from it. No call raises, and the state reached has \<open>0 \<le> current_index\<close> and
  \<open>current_index \<le> len(current_deck)\<close>; as this holds for every sequence, it holds
  after each call. Where the calls are among \<open>get_next_question\<close>, \<open>check_answer\<close>,
  \<open>skip_current_word\<close>, \<open>skip_without_penalty\<close>, \<open>get_progress\<close> and
  \<open>get_wrong_word_count\<close>, the deck is still the one that was established.
\<close>

theorem cursor_within_bounds:
  "(e1 = start_game book units fm om qm fl rt rand e0 \<or> start_review_mode rand e0 = (True, e1))
   \<longrightarrow>
     (\<exists>e'. run cs e1 = Inr e'
        \<and> 0 \<le> current_index e'
        \<and> current_index e' \<le> int (length (current_deck e'))
        \<and> (list_all is_play cs \<longrightarrow> current_deck e' = current_deck e1))"
proof
  assume "e1 = start_game book units fm om qm fl rt rand e0
            \<or> start_review_mode rand e0 = (True, e1)"
  then have "in_bounds e1"
    using start_game_bounds start_review_mode_started by blast
  then obtain e' where e': "run cs e1 = Inr e'" "in_bounds e'"
    using run_bounds by blast
  then have "list_all is_play cs \<longrightarrow> current_deck e' = current_deck e1"
    using run_play_deck by blast
  with e' show "\<exists>e'. run cs e1 = Inr e'
        \<and> 0 \<le> current_index e'
        \<and> current_index e' \<le> int (length (current_deck e'))
        \<and> (list_all is_play cs \<longrightarrow> current_deck e' = current_deck e1)"
    by (auto simp: in_bounds_def)
qed

theorem cursor_within_bounds_witness:
  "list_all is_play
     [GetNextQuestion, CheckAnswer ''walk'', SkipCurrentWord, GetProgress,
      SkipWithoutPenalty, CheckAnswer ''pear'', GetWrongWordCount]
   \<and> (\<exists>e'. run [GetNextQuestion, CheckAnswer ''walk'', SkipCurrentWord, GetProgress,
                 SkipWithoutPenalty, CheckAnswer ''pear'', GetWrongWordCount]
               (start_game ''book1'' [''unit1.csv''] ''all'' ''sequential'' ''word'' False False
                  (\<lambda>i. 0) (sample_engine [] 0 [] True)) = Inr e'
          \<and> 0 \<le> current_index e'
          \<and> current_index e' \<le> int (length (current_deck e'))
          \<and> current_deck e' = [entry_run, entry_take_off, entry_apple])
   \<and> (\<exists>e1. start_review_mode (\<lambda>i. 0) (sample_engine [] 0 [entry_run, entry_apple] True)
               = (True, e1)
          \<and> (\<exists>e'. run [SkipCurrentWord, ClearWrongWordsCache, CheckAnswer ''apple'',
                        CheckAnswer ''apple'', StartReviewMode (\<lambda>i. 0)] e1 = Inr e'
                \<and> 0 \<le> current_index e'
                \<and> current_index e' \<le> int (length (current_deck e'))))"
proof -
  have play: "list_all is_play
     [GetNextQuestion, CheckAnswer ''walk'', SkipCurrentWord, GetProgress,
      SkipWithoutPenalty, CheckAnswer ''pear'', GetWrongWordCount]"
    by simp
  have deck: "current_deck (start_game ''book1'' [''unit1.csv''] ''all'' ''sequential'' ''word''
                 False False (\<lambda>i. 0) (sample_engine [] 0 [] True))
                = [entry_run, entry_take_off, entry_apple]"
    by code_simp
  have "fst (start_review_mode (\<lambda>i. 0) (sample_engine [] 0 [entry_run, entry_apple] True))"
    by code_simp
  then have started:
    "start_review_mode (\<lambda>i. 0) (sample_engine [] 0 [entry_run, entry_apple] True)
       = (True, snd (start_review_mode (\<lambda>i. 0)
                       (sample_engine [] 0 [entry_run, entry_apple] True)))"
    by (simp add: prod_eq_iff)
  note game = cursor_within_bounds
    [where ?e1.0 = "start_game ''book1'' [''unit1.csv''] ''all'' ''sequential'' ''word''
                      False False (\<lambda>i. 0) (sample_engine [] 0 [] True)"
       and book = "''book1''" and units = "[''unit1.csv'']" and fm = "''all''"
       and om = "''sequential''" and qm = "''word''" and fl = False and rt = False
       and rand = "\<lambda>i. 0" and ?e0.0 = "sample_engine [] 0 [] True"
       and cs = "[GetNextQuestion, CheckAnswer ''walk'', SkipCurrentWord, GetProgress,
                  SkipWithoutPenalty, CheckAnswer ''pear'', GetWrongWordCount]",
     THEN mp, OF disjI1, OF refl]
  note review = cursor_within_bounds
    [where ?e1.0 = "snd (start_review_mode (\<lambda>i. 0)
                          (sample_engine [] 0 [entry_run, entry_apple] True))"
       and rand = "\<lambda>i. 0" and ?e0.0 = "sample_engine [] 0 [entry_run, entry_apple] True"
       and cs = "[SkipCurrentWord, ClearWrongWordsCache, CheckAnswer ''apple'',
                  CheckAnswer ''apple'', StartReviewMode (\<lambda>i. 0)]",
     THEN mp, OF disjI2, OF started]
  have g: "\<exists>e'. run [GetNextQuestion, CheckAnswer ''walk'', SkipCurrentWord, GetProgress,
                 SkipWithoutPenalty, CheckAnswer ''pear'', GetWrongWordCount]
               (start_game ''book1'' [''unit1.csv''] ''all'' ''sequential'' ''word'' False False
                  (\<lambda>i. 0) (sample_engine [] 0 [] True)) = Inr e'
          \<and> 0 \<le> current_index e'
          \<and> current_index e' \<le> int (length (current_deck e'))
          \<and> current_deck e' = [entry_run, entry_take_off, entry_apple]"
    using game play unfolding deck by blast
  have r: "\<exists>e1. start_review_mode (\<lambda>i. 0) (sample_engine [] 0 [entry_run, entry_apple] True)
               = (True, e1)
          \<and> (\<exists>e'. run [SkipCurrentWord, ClearWrongWordsCache, CheckAnswer ''apple'',
                        CheckAnswer ''apple'', StartReviewMode (\<lambda>i. 0)] e1 = Inr e'
                \<and> 0 \<le> current_index e'
                \<and> current_index e' \<le> int (length (current_deck e')))"
    using review started by blast
  show ?thesis using play g r by (intro conjI)
qed

section \<open>The file follows the set\<close>

lemma load_fields [simp]:
  "current_deck (load_wrong_words_from_disk e) = current_deck e"
  "current_index (load_wrong_words_from_disk e) = current_index e"
  "disk (load_wrong_words_from_disk e) = disk e"
  "writable (load_wrong_words_from_disk e) = writable e"
  "loader (load_wrong_words_from_disk e) = loader e"
  by (simp_all add: load_wrong_words_from_disk_def split: option.splits stored.splits sum.splits)

lemma init_fields [simp]:
  "current_deck (init l d w) = []" "current_index (init l d w) = 0"
  "disk (init l d w) = d" "writable (init l d w) = w" "loader (init l d w) = l"
  by (simp_all add: init_def)

lemma init_bounds: "in_bounds (init l d w)"
  by (simp add: in_bounds_def)

lemma on_disk_init: "on_disk (init l d w) = wrong_words (init l d w)"
  by (simp add: on_disk_def)

lemma load_after_save:
  "writable e \<Longrightarrow>
     wrong_words (load_wrong_words_from_disk (save_wrong_words_to_disk e))
       = remdups (wrong_words e)"
  by (simp add: load_wrong_words_from_disk_def disk_save decode_asdict)

lemma start_game_store [simp]:
  "disk (start_game book units fm om qm fl rt rand e) = disk e"
  "writable (start_game book units fm om qm fl rt rand e) = writable e"
  "wrong_words (start_game book units fm om qm fl rt rand e) = wrong_words e"
  by (simp_all add: start_game_def Let_def split: prod.splits)

lemma synced_same:
  "disk e' = disk e \<Longrightarrow> wrong_words e' = wrong_words e \<Longrightarrow>
     set (on_disk e) = set (wrong_words e) \<Longrightarrow> set (on_disk e') = set (wrong_words e')"
  using on_disk_cong [of e' e] by simp

lemma synced_saved:
  assumes "writable e"
    and "disk e' = disk (save_wrong_words_to_disk (e\<lparr>wrong_words := ws\<rparr>))"
    and "wrong_words e' = ws"
  shows "set (on_disk e') = set (wrong_words e')"
proof -
  have "on_disk e' = on_disk (save_wrong_words_to_disk (e\<lparr>wrong_words := ws\<rparr>))"
    using assms(2) by (rule on_disk_cong)
  also have "\<dots> = remdups ws"
    using assms(1) by (simp add: on_disk_save)
  finally show ?thesis using assms(3) by simp
qed

lemma start_review_mode_synced:
  assumes "writable e" and "set (on_disk e) = set (wrong_words e)"
  shows "writable (snd (start_review_mode rand e))
     \<and> set (on_disk (snd (start_review_mode rand e)))
         = set (wrong_words (snd (start_review_mode rand e)))"
proof (cases "wrong_words e = []")
  case True
  then have "snd (start_review_mode rand e) = print No_words_to_review e"
    by (simp add: start_review_mode_def)
  then have "disk (snd (start_review_mode rand e)) = disk e"
    "wrong_words (snd (start_review_mode rand e)) = wrong_words e"
    "writable (snd (start_review_mode rand e)) = writable e"
    by simp_all
  with assms show ?thesis
    using synced_same [of "snd (start_review_mode rand e)" e] by simp
next
  case False
  let ?e' = "snd (start_review_mode rand e)"
  from False have "disk ?e' = disk (save_wrong_words_to_disk (e\<lparr>wrong_words := []\<rparr>))"
    by (simp add: start_review_mode_def Let_def disk_save)
  moreover from False have "wrong_words ?e' = []" "writable ?e' = writable e"
    by (simp_all add: start_review_mode_def Let_def)
  ultimately show ?thesis using assms(1) synced_saved [of e ?e' "[]"] by simp
qed

lemma check_answer_store:
  "check_answer user_input e = Inr (r, e') \<Longrightarrow>
     writable e' = writable e
     \<and> ((disk e' = disk e \<and> wrong_words e' = wrong_words e)
        \<or> (\<exists>ws. disk e' = disk (save_wrong_words_to_disk (e\<lparr>wrong_words := ws\<rparr>))
                \<and> wrong_words e' = ws))"
  by (auto simp: check_answer_def Let_def split: if_splits sum.splits)

lemma skip_current_word_store:
  "skip_current_word e = Inr (r, e') \<Longrightarrow>
     writable e' = writable e
     \<and> ((disk e' = disk e \<and> wrong_words e' = wrong_words e)
        \<or> (\<exists>ws. disk e' = disk (save_wrong_words_to_disk (e\<lparr>wrong_words := ws\<rparr>))
                \<and> wrong_words e' = ws))"
  by (auto simp: skip_current_word_def Let_def split: if_splits sum.splits)

lemma skip_without_penalty_store:
  "skip_without_penalty e = Inr (r, e') \<Longrightarrow>
     writable e' = writable e
     \<and> ((disk e' = disk e \<and> wrong_words e' = wrong_words e)
        \<or> (\<exists>ws. disk e' = disk (save_wrong_words_to_disk (e\<lparr>wrong_words := ws\<rparr>))
                \<and> wrong_words e' = ws))"
  by (auto simp: skip_without_penalty_def Let_def split: if_splits sum.splits)

lemma store_synced:
  assumes w: "writable e" and sync: "set (on_disk e) = set (wrong_words e)"
    and st: "writable e' = writable e
     \<and> ((disk e' = disk e \<and> wrong_words e' = wrong_words e)
        \<or> (\<exists>ws. disk e' = disk (save_wrong_words_to_disk (e\<lparr>wrong_words := ws\<rparr>))
                \<and> wrong_words e' = ws))"
  shows "writable e' \<and> set (on_disk e') = set (wrong_words e')"
proof
  from st w show "writable e'" by simp
  from st have "(disk e' = disk e \<and> wrong_words e' = wrong_words e)
        \<or> (\<exists>ws. disk e' = disk (save_wrong_words_to_disk (e\<lparr>wrong_words := ws\<rparr>))
                \<and> wrong_words e' = ws)"
    by (rule conjunct2)
  then show "set (on_disk e') = set (wrong_words e')"
  proof
    assume "disk e' = disk e \<and> wrong_words e' = wrong_words e"
    then show ?thesis using sync synced_same [of e' e] by simp
  next
    assume "\<exists>ws. disk e' = disk (save_wrong_words_to_disk (e\<lparr>wrong_words := ws\<rparr>))
                \<and> wrong_words e' = ws"
    then obtain ws where "disk e' = disk (save_wrong_words_to_disk (e\<lparr>wrong_words := ws\<rparr>))"
      and "wrong_words e' = ws"
      by (elim exE conjE)
    with w show ?thesis by (rule synced_saved)
  qed
qed

lemma clear_wrong_words_cache_synced:
  assumes "writable e"
  shows "writable (clear_wrong_words_cache e)
     \<and> set (on_disk (clear_wrong_words_cache e)) = set (wrong_words (clear_wrong_words_cache e))"
proof -
  let ?e' = "clear_wrong_words_cache e"
  have "disk ?e' = disk (save_wrong_words_to_disk (e\<lparr>wrong_words := []\<rparr>))"
       "wrong_words ?e' = []" "writable ?e' = writable e"
    by (simp_all add: clear_wrong_words_cache_def)
  then show ?thesis using assms synced_saved [of e ?e' "[]"] by simp
qed

lemma map_sum_snd_Inr: "map_sum id snd x = Inr b \<Longrightarrow> \<exists>a. x = Inr (a, b)"
  by (cases x) auto

lemma call_synced:
  assumes w: "writable e" and sync: "set (on_disk e) = set (wrong_words e)"
    and c: "call c e = Inr e'"
  shows "writable e' \<and> set (on_disk e') = set (wrong_words e')"
proof (cases c)
  case (StartGame book units fm om qm fl rt rand)
  with c have e': "e' = start_game book units fm om qm fl rt rand e" by simp
  have "disk e' = disk e" "wrong_words e' = wrong_words e" "writable e' = writable e"
    by (simp_all add: e')
  then show ?thesis using w sync synced_same [of e' e] by simp
next
  case (StartReviewMode rand)
  with c have "e' = snd (start_review_mode rand e)" by simp
  then show ?thesis using start_review_mode_synced [OF w sync, of rand] by simp
next
  case GetNextQuestion
  with c have served: "map_sum id snd (get_next_question e) = Inr e'"
    by (simp only: call.simps)
  from map_sum_snd_Inr [OF served] obtain r where "get_next_question e = Inr (r, e')"
    by (elim exE)
  then have "e' = e" by (rule get_next_question_same)
  then show ?thesis using w sync by simp
next
  case (CheckAnswer user_input)
  with c have served: "map_sum id snd (check_answer user_input e) = Inr e'"
    by (simp only: call.simps)
  from map_sum_snd_Inr [OF served] obtain r where "check_answer user_input e = Inr (r, e')"
    by (elim exE)
  then have "writable e' = writable e
     \<and> ((disk e' = disk e \<and> wrong_words e' = wrong_words e)
        \<or> (\<exists>ws. disk e' = disk (save_wrong_words_to_disk (e\<lparr>wrong_words := ws\<rparr>))
                \<and> wrong_words e' = ws))"
    by (rule check_answer_store)
  with w sync show ?thesis by (rule store_synced)
next
  case SkipCurrentWord
  with c have served: "map_sum id snd (skip_current_word e) = Inr e'"
    by (simp only: call.simps)
  from map_sum_snd_Inr [OF served] obtain r where "skip_current_word e = Inr (r, e')"
    by (elim exE)
  then have "writable e' = writable e
     \<and> ((disk e' = disk e \<and> wrong_words e' = wrong_words e)
        \<or> (\<exists>ws. disk e' = disk (save_wrong_words_to_disk (e\<lparr>wrong_words := ws\<rparr>))
                \<and> wrong_words e' = ws))"
    by (rule skip_current_word_store)
  with w sync show ?thesis by (rule store_synced)
next
  case SkipWithoutPenalty
  with c have served: "map_sum id snd (skip_without_penalty e) = Inr e'"
    by (simp only: call.simps)
  from map_sum_snd_Inr [OF served] obtain r where "skip_without_penalty e = Inr (r, e')"
    by (elim exE)
  then have "writable e' = writable e
     \<and> ((disk e' = disk e \<and> wrong_words e' = wrong_words e)
        \<or> (\<exists>ws. disk e' = disk (save_wrong_words_to_disk (e\<lparr>wrong_words := ws\<rparr>))
                \<and> wrong_words e' = ws))"
    by (rule skip_without_penalty_store)
  with w sync show ?thesis by (rule store_synced)
next
  case ClearWrongWordsCache
  with c have "e' = clear_wrong_words_cache e" by simp
  then show ?thesis using clear_wrong_words_cache_synced [OF w] by simp
next
  case GetProgress
  with c have "e' = e" by simp
  then show ?thesis using w sync by simp
next
  case GetWrongWordCount
  with c have "e' = e" by simp
  then show ?thesis using w sync by simp
qed

lemma run_synced:
  "writable e \<Longrightarrow> set (on_disk e) = set (wrong_words e) \<Longrightarrow> run cs e = Inr e' \<Longrightarrow>
     writable e' \<and> set (on_disk e') = set (wrong_words e')"
proof (induction cs arbitrary: e)
  case Nil
  then show ?case by simp
next
  case (Cons c cs)
  from Cons.prems obtain e1 where e1: "call c e = Inr e1" "run cs e1 = Inr e'"
    by (auto split: sum.splits)
  with Cons.prems have "writable e1 \<and> set (on_disk e1) = set (wrong_words e1)"
    using call_synced [of e c e1] by simp
  with e1 show ?case using Cons.IH [of e1] by simp
qed

text \<open>
  C3. Where the file accepts the write, what \<open>_save_wrong_words_to_disk\<close> writes is
  read back by \<open>_load_wrong_words_from_disk\<close>, in the same engine or in a new one, as
  the set that was saved, whatever that set is. An engine that has just been constructed
  holds the set that its file loads as. And in an engine constructed on a file that
  accepts writes, after any sequence of calls of the engine's methods the file loads as
  the set held in memory; no call raises.
\<close>

theorem persistence_round_trip:
  "(writable e \<longrightarrow>
      set (wrong_words (load_wrong_words_from_disk (save_wrong_words_to_disk e)))
        = set (wrong_words e)
      \<and> set (on_disk (save_wrong_words_to_disk e)) = set (wrong_words e))
   \<and> set (on_disk (init l d w)) = set (wrong_words (init l d w))
   \<and> (\<exists>e'. run cs (init l d True) = Inr e' \<and> set (on_disk e') = set (wrong_words e'))"
proof (intro conjI impI)
  assume w: "writable e"
  then show "set (wrong_words (load_wrong_words_from_disk (save_wrong_words_to_disk e)))
               = set (wrong_words e)"
    by (simp add: load_after_save)
  from w show "set (on_disk (save_wrong_words_to_disk e)) = set (wrong_words e)"
    by (simp add: on_disk_save)
next
  show "set (on_disk (init l d w)) = set (wrong_words (init l d w))"
    by (simp add: on_disk_init)
next
  obtain e' where e': "run cs (init l d True) = Inr e'"
    using run_bounds [OF init_bounds] by blast
  then have "set (on_disk e') = set (wrong_words e')"
    using run_synced [of "init l d True" cs e'] by (simp add: on_disk_init)
  with e' show "\<exists>e'. run cs (init l d True) = Inr e' \<and> set (on_disk e') = set (wrong_words e')"
    by blast
qed

theorem persistence_round_trip_witness:
  "writable ((sample_engine [entry_run] 0 [entry_run, entry_apple] True)\<lparr>disk := None\<rparr>)
   \<and> set (wrong_words (load_wrong_words_from_disk (save_wrong_words_to_disk
            ((sample_engine [entry_run] 0 [entry_run, entry_apple] True)\<lparr>disk := None\<rparr>))))
       = {entry_run, entry_apple}
   \<and> set (on_disk (save_wrong_words_to_disk
            ((sample_engine [entry_run] 0 [entry_run, entry_apple] True)\<lparr>disk := None\<rparr>)))
       = {entry_run, entry_apple}
   \<and> (\<exists>e'. run [StartGame ''book1'' [''unit1.csv''] ''all'' ''sequential'' ''word'' False False
                    (\<lambda>i. 0),
                 CheckAnswer ''walk'', SkipCurrentWord, SkipWithoutPenalty]
               (init sample_loader None True) = Inr e'
          \<and> set (on_disk e') = set (wrong_words e')
          \<and> wrong_words e' = [entry_take_off, entry_run])"
proof -
  let ?e = "(sample_engine [entry_run] 0 [entry_run, entry_apple] True)\<lparr>disk := None\<rparr>"
  let ?cs = "[StartGame ''book1'' [''unit1.csv''] ''all'' ''sequential'' ''word'' False False
                (\<lambda>i. 0),
              CheckAnswer ''walk'', SkipCurrentWord, SkipWithoutPenalty]"
  have w: "writable ?e"
    by (simp add: sample_engine_def)
  have ws: "wrong_words ?e = [entry_run, entry_apple]"
    by (simp add: sample_engine_def)
  note saved = persistence_round_trip [where e = ?e, THEN conjunct1, rule_format, OF w]
  note ran = persistence_round_trip
               [where l = sample_loader and d = None and cs = ?cs,
                THEN conjunct2, THEN conjunct2]
  have missed: "map_sum id wrong_words (run ?cs (init sample_loader None True))
                  = Inr [entry_take_off, entry_run]"
    by code_simp
  from ran obtain e' where e': "run ?cs (init sample_loader None True) = Inr e'"
    and sync: "set (on_disk e') = set (wrong_words e')"
    by (elim exE conjE)
  from missed e' have "wrong_words e' = [entry_take_off, entry_run]"
    by simp
  with e' sync have "\<exists>e'. run ?cs (init sample_loader None True) = Inr e'
          \<and> set (on_disk e') = set (wrong_words e')
          \<and> wrong_words e' = [entry_take_off, entry_run]"
    by (intro exI conjI)
  with w saved show ?thesis
    unfolding ws by (simp add: insert_commute)
qed

section \<open>The list of wrong words is a set\<close>

text \<open>
  The list that stands for the set of wrong words never holds an entry twice, in any state
  that calls of the engine's methods reach from a constructed engine.
\<close>

lemma distinct_init: "distinct (wrong_words (init l d w))"
  by (simp add: init_def load_wrong_words_from_disk_def decode_def
           split: option.splits stored.splits sum.splits)

lemma distinct_start_review_mode:
  "distinct (wrong_words e) \<Longrightarrow> distinct (wrong_words (snd (start_review_mode rand e)))"
  by (simp add: start_review_mode_def Let_def)

lemma distinct_check_answer:
  "distinct (wrong_words e) \<Longrightarrow> check_answer user_input e = Inr (r, e') \<Longrightarrow>
     distinct (wrong_words e')"
  by (auto simp: check_answer_def Let_def split: if_splits sum.splits)

lemma distinct_skip_current_word:
  "distinct (wrong_words e) \<Longrightarrow> skip_current_word e = Inr (r, e') \<Longrightarrow>
     distinct (wrong_words e')"
  by (auto simp: skip_current_word_def Let_def split: if_splits sum.splits)

lemma distinct_skip_without_penalty:
  "distinct (wrong_words e) \<Longrightarrow> skip_without_penalty e = Inr (r, e') \<Longrightarrow>
     distinct (wrong_words e')"
  by (auto simp: skip_without_penalty_def Let_def distinct_removeAll split: if_splits sum.splits)

lemma distinct_call:
  assumes d: "distinct (wrong_words e)" and c: "call c e = Inr e'"
  shows "distinct (wrong_words e')"
proof (cases c)
  case (StartGame book units fm om qm fl rt rand)
  with c have "e' = start_game book units fm om qm fl rt rand e" by simp
  with d show ?thesis by simp
next
  case (StartReviewMode rand)
  with c have "e' = snd (start_review_mode rand e)" by simp
  then show ?thesis using distinct_start_review_mode [OF d, of rand] by simp
next
  case GetNextQuestion
  with c have served: "map_sum id snd (get_next_question e) = Inr e'"
    by (simp only: call.simps)
  from map_sum_snd_Inr [OF served] obtain r where "get_next_question e = Inr (r, e')"
    by (elim exE)
  then have "e' = e" by (rule get_next_question_same)
  with d show ?thesis by simp
next
  case (CheckAnswer user_input)
  with c have served: "map_sum id snd (check_answer user_input e) = Inr e'"
    by (simp only: call.simps)
  from map_sum_snd_Inr [OF served] obtain r where "check_answer user_input e = Inr (r, e')"
    by (elim exE)
  with d show ?thesis by (rule distinct_check_answer)
next
  case SkipCurrentWord
  with c have served: "map_sum id snd (skip_current_word e) = Inr e'"
    by (simp only: call.simps)
  from map_sum_snd_Inr [OF served] obtain r where "skip_current_word e = Inr (r, e')"
    by (elim exE)
  with d show ?thesis by (rule distinct_skip_current_word)
next
  case SkipWithoutPenalty
  with c have served: "map_sum id snd (skip_without_penalty e) = Inr e'"
    by (simp only: call.simps)
  from map_sum_snd_Inr [OF served] obtain r where "skip_without_penalty e = Inr (r, e')"
    by (elim exE)
  with d show ?thesis by (rule distinct_skip_without_penalty)
next
  case ClearWrongWordsCache
  with c have "e' = clear_wrong_words_cache e" by simp
  then show ?thesis by (simp add: clear_wrong_words_cache_def)
next
  case GetProgress
  with c have "e' = e" by simp
  with d show ?thesis by simp
next
  case GetWrongWordCount
  with c have "e' = e" by simp
  with d show ?thesis by simp
qed

lemma distinct_run:
  "distinct (wrong_words e) \<Longrightarrow> run cs e = Inr e' \<Longrightarrow> distinct (wrong_words e')"
proof (induction cs arbitrary: e)
  case Nil
  then show ?case by simp
next
  case (Cons c cs)
  from Cons.prems obtain e1 where e1: "call c e = Inr e1" "run cs e1 = Inr e'"
    by (auto split: sum.splits)
  from Cons.prems(1) e1(1) have "distinct (wrong_words e1)"
    by (rule distinct_call)
  then show ?case using e1(2) by (rule Cons.IH)
qed

lemma distinct_reachable:
  "run cs (init l d w) = Inr e' \<Longrightarrow> distinct (wrong_words e')"
  using distinct_init by (rule distinct_run)

end
